theory Spec2Isabelle
  imports Main "HOL-Library.Multiset"
begin

section \<open>Reference crawler: a model of research/crawl\_references.py\<close>

text \<open>
  The crawler builds a citation graph from two remote catalogs (OpenAlex, the primary
  one, and Semantic Scholar, the secondary one). The definitions below follow
  \<^verbatim>\<open>src/research/crawl_references.py\<close> function by function. Python strings are
  modelled as \<open>string\<close>, a list of characters below 256: the model is exact on ASCII
  strings (\<open>is_ascii\<close>), on which Python's Unicode classes for words, spaces, digits and
  letter case agree with the ASCII ones written here. \<open>dict.get\<close> returning \<open>None\<close>
  (key absent, or JSON null) is the value \<open>None\<close> of an option type; an exception
  is a value of a sum or option type.

  Left out: logging, the progress bar, the metrics counters, the delay between frontier
  items, the files behind the two caches, and the rate limiter, which computes with
  floating-point clock readings. A citation count is absent, an integer, or a value that
  \<open>int()\<close> rejects; counts with a fraction, booleans and numeric strings are not
  modelled.
\<close>

subsection \<open>String helpers of the Python runtime\<close>

definition is_space :: "char \<Rightarrow> bool" where
  \<comment> \<open>the ASCII characters for which \<open>str.isspace\<close> holds (also the class \<open>\s\<close>)\<close>
  "is_space c = (c \<in> set [CHR 0x09, CHR 0x0A, CHR 0x0B, CHR 0x0C, CHR 0x0D,
                           CHR 0x1C, CHR 0x1D, CHR 0x1E, CHR 0x1F, CHR 0x20])"

definition is_digit :: "char \<Rightarrow> bool" where
  "is_digit c = (c \<in> set ''0123456789'')"

definition is_word :: "char \<Rightarrow> bool" where
  \<comment> \<open>the class \<open>\w\<close> on ASCII\<close>
  "is_word c = (c \<in> set ''abcdefghijklmnopqrstuvwxyzABCDEFGHIJKLMNOPQRSTUVWXYZ0123456789_'')"

definition lower_char :: "char \<Rightarrow> char" where
  "lower_char c =
     (case map_of (zip ''ABCDEFGHIJKLMNOPQRSTUVWXYZ'' ''abcdefghijklmnopqrstuvwxyz'') c of
        Some l \<Rightarrow> l | None \<Rightarrow> c)"

definition lower :: "string \<Rightarrow> string" where
  "lower s = map lower_char s"

definition strip :: "string \<Rightarrow> string" where
  "strip s = rev (dropWhile is_space (rev (dropWhile is_space s)))"

definition last_seg :: "string \<Rightarrow> string" where
  \<comment> \<open>\<open>s.split("/")[-1]\<close>\<close>
  "last_seg s = rev (takeWhile (\<lambda>c. c \<noteq> CHR ''/'') (rev s))"

definition startswith :: "string \<Rightarrow> string \<Rightarrow> bool" where
  "startswith s p = (take (length p) s = p)"

fun digit_str :: "nat \<Rightarrow> string" where
  "digit_str n = (if n < 10 then [''0123456789'' ! n] else digit_str (n div 10) @ [''0123456789'' ! (n mod 10)])"

definition str_int :: "int \<Rightarrow> string" where
  \<comment> \<open>\<open>str(n)\<close> for an integer, as an f-string renders it\<close>
  "str_int n = (if n < 0 then CHR ''-'' # digit_str (nat (- n)) else digit_str (nat n))"

definition truthy_str :: "string option \<Rightarrow> string option" where
  \<comment> \<open>\<open>x or None\<close> on an optional string: the empty string is falsy\<close>
  "truthy_str x = (case x of Some s \<Rightarrow> (if s = [] then None else Some s) | None \<Rightarrow> None)"

definition is_ascii :: "string \<Rightarrow> bool" where
  \<comment> \<open>every character is below 128: the string is the Python string, character by character\<close>
  "is_ascii s = list_all (\<lambda>c. (of_char c :: nat) < 128) s"

definition ascii_field :: "string option \<Rightarrow> bool" where
  "ascii_field x = (case x of None \<Rightarrow> True | Some s \<Rightarrow> is_ascii s)"

subsection \<open>The regular expressions of the low-information title filter\<close>

datatype rx =
    Eps
  | Atom "char \<Rightarrow> bool"
  | Seq rx rx
  | Alt rx rx
  | Opt rx
  | StarAtom "char \<Rightarrow> bool"

fun rests :: "rx \<Rightarrow> string \<Rightarrow> string list" where
  \<comment> \<open>every remainder of the input after a prefix that the expression matches\<close>
  "rests Eps s = [s]"
| "rests (Atom p) s = (case s of [] \<Rightarrow> [] | c # t \<Rightarrow> (if p c then [t] else []))"
| "rests (Seq a b) s = concat (map (rests b) (rests a s))"
| "rests (Alt a b) s = rests a s @ rests b s"
| "rests (Opt a) s = rests a s @ [s]"
| "rests (StarAtom p) s = map (\<lambda>k. drop k s) (rev [0..<Suc (length (takeWhile p s))])"

fun lit :: "string \<Rightarrow> rx" where
  "lit [] = Eps"
| "lit (c # cs) = Seq (Atom (\<lambda>x. x = c)) (lit cs)"

fun seqs :: "rx list \<Rightarrow> rx" where
  "seqs [] = Eps"
| "seqs (r # rs) = Seq r (seqs rs)"

fun alts :: "rx \<Rightarrow> rx list \<Rightarrow> rx" where
  "alts r [] = r"
| "alts r (r' # rs) = Alt r (alts r' rs)"

definition abbr :: "string \<Rightarrow> rx" where
  \<comment> \<open>a word followed by an optional full stop, as in \<open>phys\.?\<close>\<close>
  "abbr w = Seq (lit w) (Opt (lit ''.''))"

definition ws :: rx where
  \<comment> \<open>\<open>\s*\<close>\<close>
  "ws = StarAtom is_space"

definition opt_ab :: rx where
  \<comment> \<open>\<open>(?:\s*[ab])?\<close>\<close>
  "opt_ab = Opt (Seq ws (Atom (\<lambda>c. c = CHR ''a'' \<or> c = CHR ''b'')))"

definition GENERIC_TITLE_RX :: rx where
  \<comment> \<open>the alternation between the two \<open>\b\<close> of GENERIC\_TITLE\_PAT, on lower-cased input\<close>
  "GENERIC_TITLE_RX = alts
     (lit ''preprint'')
     [lit ''proceedings'',
      lit ''proc.'',
      seqs [abbr ''phys'', ws, abbr ''rev'', Opt (Seq ws (abbr ''lett''))],
      seqs [abbr ''phys'', ws, abbr ''lett'', opt_ab],
      seqs [abbr ''mod'', ws, abbr ''phys'', ws, abbr ''lett''],
      seqs [abbr ''ann'', ws, abbr ''phys''],
      seqs [abbr ''nucl'', ws, abbr ''phys'', opt_ab],
      seqs [abbr ''class'', ws, abbr ''quant'', ws, abbr ''grav''],
      seqs [Alt (lit ''commun'') (lit ''comm''), Opt (lit ''.''), ws, abbr ''math'', ws, abbr ''phys''],
      seqs [abbr ''int'', ws, abbr ''j''],
      lit ''jhep'',
      seqs [abbr ''j'', ws, abbr ''phys'']]"

definition word_opt :: "char option \<Rightarrow> bool" where
  "word_opt x = (case x of None \<Rightarrow> False | Some c \<Rightarrow> is_word c)"

definition boundary :: "char option \<Rightarrow> string \<Rightarrow> bool" where
  \<comment> \<open>\<open>\b\<close> between the character before a position and the text after it\<close>
  "boundary prev s = (word_opt prev \<noteq> word_opt (case s of [] \<Rightarrow> None | c # _ \<Rightarrow> Some c))"

definition match_here :: "rx \<Rightarrow> char option \<Rightarrow> string \<Rightarrow> bool" where
  \<comment> \<open>\<open>\b(r)\b\<close> matched at the start of \<open>s\<close>, \<open>prev\<close> being the character before it\<close>
  "match_here r prev s =
     (boundary prev s \<and>
      list_ex (\<lambda>rest.
         let k = length s - length rest
         in boundary (if k = 0 then prev else Some (s ! (k - 1))) rest) (rests r s))"

fun search_from :: "rx \<Rightarrow> char option \<Rightarrow> string \<Rightarrow> bool" where
  "search_from r prev [] = match_here r prev []"
| "search_from r prev (c # t) = (match_here r prev (c # t) \<or> search_from r (Some c) t)"

definition generic_title_search :: "string \<Rightarrow> bool" where
  \<comment> \<open>\<open>GENERIC_TITLE_PAT.search(t)\<close> is not \<open>None\<close>\<close>
  "generic_title_search t = search_from GENERIC_TITLE_RX None (lower t)"

definition ARXIV_ID_RX :: rx where
  \<comment> \<open>ARXIV\_ID\_PAT between \<open>^\<close> and \<open>$\<close>, on lower-cased input\<close>
  "ARXIV_ID_RX = seqs
     [ws,
      alts (Seq (lit ''hep-'') (Alt (lit ''th'') (lit ''ph''))) [lit ''gr-qc'', lit ''astro-ph'', lit ''cond-mat''],
      lit ''/'',
      seqs (replicate 7 (Atom is_digit)),
      ws]"

definition arxiv_id_match :: "string \<Rightarrow> bool" where
  \<comment> \<open>\<open>ARXIV_ID_PAT.match(t)\<close>: \<open>$\<close> also matches before a final newline\<close>
  "arxiv_id_match t = list_ex (\<lambda>rest. rest = [] \<or> rest = [CHR 0x0A]) (rests ARXIV_ID_RX (lower t))"

fun count_words :: "bool \<Rightarrow> string \<Rightarrow> nat" where
  \<comment> \<open>\<open>len(re.findall(r"\w+", t))\<close>; the flag says that a word is being read\<close>
  "count_words inw [] = 0"
| "count_words inw (c # t) =
     (if is_word c then (if inw then 0 else 1) + count_words True t else count_words False t)"

definition is_low_info_title :: "string option \<Rightarrow> bool" where
  \<comment> \<open>exact for an absent title and for an ASCII title (\<open>ascii_field\<close>)\<close>
  "is_low_info_title t =
     (case truthy_str t of
        None \<Rightarrow> True
      | Some s \<Rightarrow>
          if arxiv_id_match (strip s) then True
          else let n = count_words False s
               in if generic_title_search s \<and> n \<le> 4 then True else n < 3)"

subsection \<open>Data model\<close>

datatype jcount =
    CNull        \<comment> \<open>the key is absent or JSON null: \<open>get\<close> gives \<open>None\<close>\<close>
  | CInt int     \<comment> \<open>an integer\<close>
  | COther bool  \<comment> \<open>a value on which \<open>int()\<close> raises (a list, an object, a non-numeric
                     string); the flag is its truth value\<close>

record oa_work =
  j_nonempty :: bool
     \<comment> \<open>the truth value of the JSON object: it has at least one key\<close>
  j_id :: "string option"
  j_doi :: "string option"
  j_title :: "string option"
  j_publication_year :: "int option"
  j_host_venue :: "string option"    \<comment> \<open>\<open>host_venue.display_name\<close>\<close>
  j_type :: "string option"
  j_authorships :: "string option list"
     \<comment> \<open>one entry per authorship: \<open>None\<close> without an author, else its display name
         (the empty string when the name is absent)\<close>
  j_cited_by_count :: jcount
  j_is_retracted :: "bool option"
  j_referenced_works :: "string option list"
     \<comment> \<open>one entry per list element: \<open>None\<close> for an element that is not a string\<close>

datatype pyid =
    IdStr string  \<comment> \<open>a Semantic Scholar \<open>paperId\<close>\<close>
  | IdInt int     \<comment> \<open>a Semantic Scholar \<open>CorpusId\<close>\<close>

definition truthy_id :: "pyid option \<Rightarrow> bool" where
  "truthy_id x = (case x of None \<Rightarrow> False | Some (IdStr s) \<Rightarrow> s \<noteq> [] | Some (IdInt n) \<Rightarrow> n \<noteq> 0)"

definition fmt_id :: "pyid \<Rightarrow> string" where
  \<comment> \<open>how an f-string renders the identifier\<close>
  "fmt_id x = (case x of IdStr s \<Rightarrow> s | IdInt n \<Rightarrow> str_int n)"

record WorkNode =
  openalex_id :: "string option"
  doi :: "string option"
  title :: "string option"
  publication_year :: "int option"
  host_venue :: "string option"
  work_type :: "string option"
  authors :: "string option"
  cited_by_count :: jcount
  is_retracted :: "bool option"
  source :: "string option"
  s2_paper_id :: "pyid option"

fun join_comma :: "string list \<Rightarrow> string" where
  "join_comma [] = []"
| "join_comma [x] = x"
| "join_comma (x # y # ys) = x @ '', '' @ join_comma (y # ys)"

definition from_openalex_json :: "oa_work \<Rightarrow> string \<Rightarrow> WorkNode" where
  "from_openalex_json j src =
     \<lparr> openalex_id = map_option last_seg (truthy_str (j_id j)),
       doi = truthy_str (j_doi j),
       title = truthy_str (j_title j),
       publication_year = (case j_publication_year j of Some y \<Rightarrow> (if y = 0 then None else Some y) | None \<Rightarrow> None),
       host_venue = truthy_str (j_host_venue j),
       work_type = truthy_str (j_type j),
       authors = truthy_str (Some (join_comma (map the (filter (\<lambda>a. a \<noteq> None) (j_authorships j))))),
       cited_by_count =
         (case j_cited_by_count j of
            CNull \<Rightarrow> CInt 0
          | CInt n \<Rightarrow> (if n = 0 then CInt 0 else CInt n)
          | COther t \<Rightarrow> (if t then COther t else CInt 0)),
       is_retracted =
         (case j_is_retracted j of None \<Rightarrow> Some False | Some b \<Rightarrow> (if b then Some b else Some False)),
       source = Some src,
       s2_paper_id = None \<rparr>"

subsection \<open>Threshold helper\<close>

definition passes_threshold_from_oa_json :: "oa_work \<Rightarrow> int \<Rightarrow> bool \<Rightarrow> bool" where
  "passes_threshold_from_oa_json work_json min_citations strict =
     (case j_cited_by_count work_json of
        CNull \<Rightarrow> \<not> strict
      | CInt c \<Rightarrow> c \<ge> min_citations
      | COther _ \<Rightarrow> \<not> strict)"

subsection \<open>Catalogs, the mapping cache and the record cache\<close>

record s2_ref =
  r_paperId :: "string option"
  r_title :: "string option"
  r_year :: "int option"
  r_DOI :: "string option"     \<comment> \<open>\<open>externalIds.DOI\<close>\<close>
  r_ArXiv :: "string option"   \<comment> \<open>\<open>externalIds.ArXiv\<close>\<close>
  r_CorpusId :: "int option"   \<comment> \<open>\<open>externalIds.CorpusId\<close>\<close>

datatype request =
    OA_filter_doi string   \<comment> \<open>\<open>/works?filter=doi:...\<close>\<close>
  | OA_search string       \<comment> \<open>\<open>/works?search=...\<close>\<close>
  | OA_work string         \<comment> \<open>\<open>/works/<id>\<close>\<close>
  | S2_paper string        \<comment> \<open>\<open>/paper/<id>?fields=references...\<close>\<close>

text \<open>
  The catalogs are held fixed during a run: a request has one outcome, \<open>None\<close> when
  \<open>safe_get\<close> raises. A search or filter outcome lists the \<open>id\<close> field of each result
  (\<open>None\<close> for a result without one). The last two fields give the order in which the
  tasks of one layer run and are collected (\<open>as_completed\<close>); the thread pool may produce
  any permutation of the submitted tasks.
\<close>

record catalog =
  oa_doi_results :: "string \<Rightarrow> string option list option"
  oa_search_results :: "string \<Rightarrow> string option list option"
  oa_work_json :: "string \<Rightarrow> oa_work option"
  s2_references :: "string \<Rightarrow> s2_ref list option"
  completion_ids :: "string list \<Rightarrow> string list"
  completion_refs :: "s2_ref list \<Rightarrow> s2_ref list"

text \<open>
  The mutable state of a run: the module-level mapping cache (a stored \<open>None\<close> is
  \<open>Some None\<close>), the log of the network lookups issued so far, and the collections that
  a crawl owns. \<open>enqueued\<close> is a history variable: every item ever appended to the
  frontier queue, in order. Writing the caches to disk is not modelled.
\<close>

record crawl_state =
  MAP_CACHE :: "string \<Rightarrow> string option option"
  net_log :: "request list"
  cache_oa :: "string \<Rightarrow> oa_work option"
  nodes :: "string \<Rightarrow> WorkNode option"
  edges :: "(string \<times> string) list"
  seen :: "string set"
  enqueued :: "string list"

definition map_cache_get :: "crawl_state \<Rightarrow> string \<Rightarrow> string option" where
  \<comment> \<open>\<open>_MAP_CACHE.get(key)\<close>: a missing key and a stored \<open>None\<close> both give \<open>None\<close>\<close>
  "map_cache_get st key = (case MAP_CACHE st key of None \<Rightarrow> None | Some v \<Rightarrow> v)"

definition map_cache_set :: "string \<Rightarrow> string option \<Rightarrow> crawl_state \<Rightarrow> crawl_state" where
  "map_cache_set key val st = st\<lparr>MAP_CACHE := (MAP_CACHE st)(key \<mapsto> val)\<rparr>"

definition oa_get_works :: "catalog \<Rightarrow> request \<Rightarrow> crawl_state \<Rightarrow> string option list option \<times> crawl_state" where
  \<comment> \<open>\<open>oa_get("/works", ...)\<close> followed by \<open>data.get("results") or []\<close>\<close>
  "oa_get_works cat req st =
     ((case req of
         OA_filter_doi d \<Rightarrow> oa_doi_results cat d
       | OA_search x \<Rightarrow> oa_search_results cat x
       | _ \<Rightarrow> None),
      st\<lparr>net_log := net_log st @ [req]\<rparr>)"

definition first_id :: "string option list option \<Rightarrow> string option option" where
  \<comment> \<open>the body of a \<open>try\<close>: \<open>res[0]["id"].split("/")[-1] if res else None\<close>;
      the outer \<open>None\<close> is an exception (of the request, or of reading the id)\<close>
  "first_id resp =
     (case resp of
        None \<Rightarrow> None
      | Some [] \<Rightarrow> Some None
      | Some (None # _) \<Rightarrow> None
      | Some (Some i # _) \<Rightarrow> Some (Some (last_seg i)))"

definition normalize_doi :: "string option \<Rightarrow> string option" where
  "normalize_doi d =
     (case truthy_str d of
        None \<Rightarrow> None
      | Some s \<Rightarrow>
          let s1 = strip s
          in if startswith (lower s1) ''https://doi.org/''
             then Some (drop (length ''https://doi.org/'') s1) else Some s1)"

definition ref_s2id :: "s2_ref \<Rightarrow> pyid option" where
  \<comment> \<open>\<open>ref.get("paperId") or ext.get("CorpusId")\<close>\<close>
  "ref_s2id r =
     (case truthy_str (r_paperId r) of
        Some s \<Rightarrow> Some (IdStr s)
      | None \<Rightarrow> map_option IdInt (r_CorpusId r))"

definition map_s2_ref_to_openalex :: "catalog \<Rightarrow> s2_ref \<Rightarrow> crawl_state \<Rightarrow> string option \<times> crawl_state" where
  "map_s2_ref_to_openalex cat r st =
     (let d = normalize_doi (r_DOI r);
          arx = r_ArXiv r;
          ttl = r_title r;
          s2id = ref_s2id r
      in
      case truthy_str d of
        Some dv \<Rightarrow>
          (let key = ''DOI:'' @ dv in
           case map_cache_get st key of
             Some cached \<Rightarrow> (Some cached, st)
           | None \<Rightarrow>
               (let (resp, st1) = oa_get_works cat (OA_filter_doi dv) st in
                case first_id resp of
                  Some out \<Rightarrow> (out, map_cache_set key out st1)
                | None \<Rightarrow> (None, map_cache_set key None st1)))
      | None \<Rightarrow>
      (case truthy_str arx of
        Some av \<Rightarrow>
          (let key = ''ARXIV:'' @ av in
           case map_cache_get st key of
             Some cached \<Rightarrow> (Some cached, st)
           | None \<Rightarrow>
               (let (resp, st1) = oa_get_works cat (OA_search av) st in
                case first_id resp of
                  Some out \<Rightarrow> (out, map_cache_set key out st1)
                | None \<Rightarrow> (None, map_cache_set key None st1)))
      | None \<Rightarrow>
      (case (if truthy_id s2id then map_cache_get st (''S2:'' @ fmt_id (the s2id)) else None) of
        Some cached \<Rightarrow> (Some cached, st)
      | None \<Rightarrow>
      (if truthy_str ttl \<noteq> None \<and> \<not> is_low_info_title ttl then
         (let tv = the ttl;
              tkey = ''TITLE:'' @ take 200 (lower (strip tv)) in
          case map_cache_get st tkey of
            Some cached \<Rightarrow> (Some cached, st)
          | None \<Rightarrow>
              (let (resp, st1) = oa_get_works cat (OA_search tv) st;
                   out = (case first_id resp of Some out \<Rightarrow> out | None \<Rightarrow> None);
                   st2 = map_cache_set tkey out st1
               in (out, if truthy_id s2id then map_cache_set (''S2:'' @ fmt_id (the s2id)) out st2 else st2)))
       else
         (None, if truthy_id s2id then map_cache_set (''S2:'' @ fmt_id (the s2id)) None st else st)))))"

subsection \<open>The crawlers\<close>

record params =
  p_depth :: int
  p_min_citations :: int
  p_prune_below :: bool
  p_strict_threshold :: bool
  p_keep_unmapped :: bool

datatype error = FetchFailed string

definition oa_get_or_fetch :: "catalog \<Rightarrow> string \<Rightarrow> crawl_state \<Rightarrow> oa_work option \<times> crawl_state" where
  \<comment> \<open>the record cache first, the catalog otherwise; \<open>None\<close> when the fetch raises\<close>
  "oa_get_or_fetch cat oid st =
     (case cache_oa st oid of
        Some d \<Rightarrow> (Some d, st)
      | None \<Rightarrow>
          (case oa_work_json cat oid of
             None \<Rightarrow> (None, st\<lparr>net_log := net_log st @ [OA_work oid]\<rparr>)
           | Some d \<Rightarrow>
               (Some d, st\<lparr>net_log := net_log st @ [OA_work oid],
                            cache_oa := (cache_oa st)(oid \<mapsto> d)\<rparr>)))"

definition child_ids_of :: "string option list \<Rightarrow> string list" where
  \<comment> \<open>\<open>[r.split("/")[-1] for r in refs if isinstance(r, str) and r.split("/")[-1].startswith("W")]\<close>\<close>
  "child_ids_of refs =
     map last_seg (filter (\<lambda>r. startswith (last_seg r) ''W'') (map the (filter (\<lambda>r. r \<noteq> None) refs)))"

definition handle_child ::
  "catalog \<Rightarrow> params \<Rightarrow> string \<Rightarrow> string \<Rightarrow> string list \<times> crawl_state \<Rightarrow> string list \<times> crawl_state" where
  \<comment> \<open>the body of the loop over the completed fetches of one layer, for the child \<open>cid\<close>;
      the first component is \<open>to_expand\<close>\<close>
  "handle_child cat prm cur cid acc =
     (case acc of (to_expand, st) \<Rightarrow>
      (case oa_get_or_fetch cat cid st of
         (None, st1) \<Rightarrow> (to_expand, st1)
       | (Some cjson, st1) \<Rightarrow>
           (let kp = passes_threshold_from_oa_json cjson (p_min_citations prm) (p_strict_threshold prm)
            in if \<not> kp \<and> p_prune_below prm then (to_expand, st1)
               else
                 (let st2 = (if nodes st1 cid = None
                             then st1\<lparr>nodes := (nodes st1)(cid \<mapsto> from_openalex_json cjson ''openalex'')\<rparr>
                             else st1);
                      st3 = st2\<lparr>edges := edges st2 @ [(cur, cid)]\<rparr>
                  in (if kp \<and> cid \<notin> seen st3 then to_expand @ [cid] else to_expand, st3)))))"

fun handle_children ::
  "catalog \<Rightarrow> params \<Rightarrow> string \<Rightarrow> string list \<Rightarrow> string list \<times> crawl_state \<Rightarrow> string list \<times> crawl_state" where
  "handle_children cat prm cur [] acc = acc"
| "handle_children cat prm cur (cid # rest) acc =
     handle_children cat prm cur rest (handle_child cat prm cur cid acc)"

text \<open>
  The frontier loop ends because a popped item is either dropped or replaced by items one
  layer deeper: the multiset of remaining layers over the queue decreases.
\<close>

lemma mult_drop_head: "(M, add_mset (x::nat) M) \<in> mult less_than"
  using one_step_implies_mult [of "{#x#}" "{#}" less_than M] by simp

lemma mult_replace_head:
  "\<forall>k\<in>#K. k < x \<Longrightarrow> (M + K, add_mset (x::nat) M) \<in> mult less_than"
  using one_step_implies_mult [of "{#x#}" K less_than M] by simp

definition weight :: "int \<Rightarrow> int \<Rightarrow> nat" where
  \<comment> \<open>how many layers below a frontier item can still be opened\<close>
  "weight depth d = nat (depth - d)"

function crawl_loop_openalex ::
  "catalog \<Rightarrow> params \<Rightarrow> (string \<times> int) list \<Rightarrow> crawl_state \<Rightarrow> error + crawl_state" where
  "crawl_loop_openalex cat prm [] st = Inr st"
| "crawl_loop_openalex cat prm ((cur, d) # q) st =
     (if d \<ge> p_depth prm then crawl_loop_openalex cat prm q st
      else
        (case oa_get_or_fetch cat cur st of
           (None, st1) \<Rightarrow> Inl (FetchFailed cur)
         | (Some cur_data, st1) \<Rightarrow>
             (let child_ids = child_ids_of (j_referenced_works cur_data)
              in if child_ids = [] then crawl_loop_openalex cat prm q st1
                 else
                   (let (to_expand, st2) =
                          handle_children cat prm cur (completion_ids cat child_ids) ([], st1);
                        st3 = st2\<lparr>seen := seen st2 \<union> set to_expand,
                                  enqueued := enqueued st2 @ to_expand\<rparr>
                    in crawl_loop_openalex cat prm (q @ map (\<lambda>cid. (cid, d + 1)) to_expand) st3))))"
  by pat_completeness auto

termination crawl_loop_openalex
  apply (relation "inv_image (mult less_than)
           (\<lambda>(cat, prm, q, st). mset (map (\<lambda>(k, d). weight (p_depth prm) d) q))")
      apply (simp add: wf_mult)
     apply (simp add: mult_drop_head)
    apply (simp add: mult_drop_head)
   apply (simp add: comp_def)
   apply (rule mult_replace_head)
   apply (auto simp add: weight_def)
  done

definition init_state ::
  "(string \<Rightarrow> string option option) \<Rightarrow> (string \<Rightarrow> oa_work option) \<Rightarrow> crawl_state" where
  \<comment> \<open>the mapping cache and the record cache as loaded from disk, nothing crawled yet\<close>
  "init_state mc recs =
     \<lparr> MAP_CACHE = mc, net_log = [], cache_oa = recs, nodes = Map.empty, edges = [],
       seen = {}, enqueued = [] \<rparr>"

definition crawl_references_openalex ::
  "catalog \<Rightarrow> params \<Rightarrow> string \<Rightarrow> crawl_state \<Rightarrow> error + crawl_state" where
  "crawl_references_openalex cat prm seed_id st0 =
     (case oa_get_or_fetch cat seed_id st0 of
        (None, st1) \<Rightarrow> Inl (FetchFailed seed_id)
      | (Some d0, st1) \<Rightarrow>
          crawl_loop_openalex cat prm [(seed_id, 0)]
            (st1\<lparr>nodes := (nodes st1)(seed_id \<mapsto> from_openalex_json d0 ''openalex''),
                 seen := {seed_id},
                 enqueued := [seed_id]\<rparr>))"

text \<open>
  The secondary-mediated crawler. A worker's result is the tuple the source returns,
  without the elapsed time.
\<close>

record target =
  target_key :: "string option"
  oa_json :: "oa_work option"
  next_s2 :: "pyid option"
  mapped_to_oa :: bool
  keep :: bool
  expand :: bool
  s2_title :: "string option"
  s2_year :: "int option"

definition dropped :: "bool \<Rightarrow> target" where
  \<comment> \<open>\<open>(None, None, None, mapped, False, False, None, None, dt)\<close>\<close>
  "dropped mapped =
     \<lparr> target_key = None, oa_json = None, next_s2 = None, mapped_to_oa = mapped,
       keep = False, expand = False, s2_title = None, s2_year = None \<rparr>"

definition unmapped :: "params \<Rightarrow> s2_ref \<Rightarrow> target" where
  \<comment> \<open>the end of \<open>worker\<close>, below the comment "Unmapped to OA"\<close>
  "unmapped prm r =
     (let ttl = take 80 (case truthy_str (r_title r) of Some t \<Rightarrow> t | None \<Rightarrow> []);
          cited_s2 = ref_s2id r
      in if p_strict_threshold prm then dropped False
         else if \<not> p_keep_unmapped prm then dropped False
         else
           \<lparr> target_key = Some (if truthy_id cited_s2 then ''S2:'' @ fmt_id (the cited_s2)
                                 else ''S2-TITLE:'' @ ttl),
             oa_json = None, next_s2 = cited_s2, mapped_to_oa = False,
             keep = True, expand = True, s2_title = r_title r, s2_year = r_year r \<rparr>)"

definition worker :: "catalog \<Rightarrow> params \<Rightarrow> s2_ref \<Rightarrow> crawl_state \<Rightarrow> target \<times> crawl_state" where
  \<comment> \<open>a failed fetch and an empty record (\<open>if cited_oa and cjson\<close>) both lead to the
      unmapped case\<close>
  "worker cat prm r st =
     (let (cited_oa, st1) = map_s2_ref_to_openalex cat r st;
          cited_s2 = ref_s2id r
      in case truthy_str cited_oa of
           None \<Rightarrow> (unmapped prm r, st1)
         | Some oid \<Rightarrow>
             (case oa_get_or_fetch cat oid st1 of
                (None, st2) \<Rightarrow> (unmapped prm r, st2)
              | (Some cjson, st2) \<Rightarrow>
                  if \<not> j_nonempty cjson then (unmapped prm r, st2)
                  else
                  (let kp = passes_threshold_from_oa_json cjson (p_min_citations prm) (p_strict_threshold prm)
                   in if \<not> kp \<and> p_prune_below prm then (dropped True, st2)
                      else
                        (\<lparr> target_key = Some oid, oa_json = Some cjson, next_s2 = cited_s2,
                            mapped_to_oa = True, keep = True, expand = kp,
                            s2_title = None, s2_year = None \<rparr>, st2))))"

fun run_workers :: "catalog \<Rightarrow> params \<Rightarrow> s2_ref list \<Rightarrow> crawl_state \<Rightarrow> target list \<times> crawl_state" where
  \<comment> \<open>the tasks of one layer, in the order they run; the results are \<open>keep_targets\<close>\<close>
  "run_workers cat prm [] st = ([], st)"
| "run_workers cat prm (r # rs) st =
     (let (t, st1) = worker cat prm r st;
          (ts, st2) = run_workers cat prm rs st1
      in (t # ts, st2))"

definition s2_only_node :: "target \<Rightarrow> WorkNode" where
  "s2_only_node t =
     \<lparr> openalex_id = None, doi = None, title = s2_title t, publication_year = s2_year t,
       host_venue = None, work_type = None, authors = None, cited_by_count = CNull,
       is_retracted = None, source = Some ''s2'', s2_paper_id = next_s2 t \<rparr>"

definition handle_target ::
  "string \<Rightarrow> int \<Rightarrow> target \<Rightarrow> (string \<times> pyid \<times> int) list \<times> crawl_state
     \<Rightarrow> (string \<times> pyid \<times> int) list \<times> crawl_state" where
  \<comment> \<open>the body of the loop over \<open>keep_targets\<close>; the first component is the frontier queue.
      A kept target always carries a key.\<close>
  "handle_target cur_key d t acc =
     (case acc of (q, st) \<Rightarrow>
      (if \<not> keep t then (q, st)
       else
         (case target_key t of
            None \<Rightarrow> (q, st)
          | Some k \<Rightarrow>
              (let st1 =
                     (if nodes st k \<noteq> None then st
                      else if mapped_to_oa t \<and> oa_json t \<noteq> None
                      then st\<lparr>nodes := (nodes st)(k \<mapsto>
                               (from_openalex_json (the (oa_json t)) ''mixed'')\<lparr>s2_paper_id := next_s2 t\<rparr>)\<rparr>
                      else st\<lparr>nodes := (nodes st)(k \<mapsto> s2_only_node t)\<rparr>);
                   st2 = st1\<lparr>edges := edges st1 @ [(cur_key, k)]\<rparr>
               in if expand t \<and> k \<notin> seen st2
                  then (q @ [(k, if truthy_id (next_s2 t) then the (next_s2 t) else IdStr [], d + 1)],
                        st2\<lparr>seen := insert k (seen st2), enqueued := enqueued st2 @ [k]\<rparr>)
                  else (q, st2)))))"

fun handle_targets ::
  "string \<Rightarrow> int \<Rightarrow> target list \<Rightarrow> (string \<times> pyid \<times> int) list \<times> crawl_state
     \<Rightarrow> (string \<times> pyid \<times> int) list \<times> crawl_state" where
  "handle_targets cur_key d [] acc = acc"
| "handle_targets cur_key d (t # ts) acc =
     handle_targets cur_key d ts (handle_target cur_key d t acc)"

definition s2_fetch_refs :: "catalog \<Rightarrow> pyid \<Rightarrow> crawl_state \<Rightarrow> s2_ref list \<times> crawl_state" where
  \<comment> \<open>\<open>s2_fetch_refs(cur_s2) if cur_s2 else []\<close>, an exception giving \<open>[]\<close> as well\<close>
  "s2_fetch_refs cat cur_s2 st =
     (if \<not> truthy_id (Some cur_s2) then ([], st)
      else
        ((case s2_references cat (fmt_id cur_s2) of None \<Rightarrow> [] | Some refs \<Rightarrow> refs),
         st\<lparr>net_log := net_log st @ [S2_paper (fmt_id cur_s2)]\<rparr>))"

lemma handle_target_queue:
  "\<exists>new. fst (handle_target cur_key d t (q, st)) = q @ new \<and> (\<forall>(k, s, e)\<in>set new. e = d + 1)"
  by (simp add: handle_target_def Let_def split: option.split)

lemma handle_targets_queue:
  "\<exists>new. fst (handle_targets cur_key d ts (q, st)) = q @ new \<and> (\<forall>(k, s, e)\<in>set new. e = d + 1)"
proof (induction ts arbitrary: q st)
  case Nil
  show ?case by simp
next
  case (Cons t ts)
  obtain q1 st1 where step: "handle_target cur_key d t (q, st) = (q1, st1)"
    by (cases "handle_target cur_key d t (q, st)")
  obtain n1 where n1: "q1 = q @ n1" "\<forall>(k, s, e)\<in>set n1. e = d + 1"
    using handle_target_queue [of cur_key d t q st] step by auto
  obtain n2 where n2: "fst (handle_targets cur_key d ts (q1, st1)) = q1 @ n2"
      "\<forall>(k, s, e)\<in>set n2. e = d + 1"
    using Cons.IH [of q1 st1] by blast
  show ?case
    using step n1 n2 by (intro exI [of _ "n1 @ n2"]) auto
qed

lemma queue_decreases:
  "\<not> depth \<le> d \<Longrightarrow>
   (mset (map (\<lambda>(k, s, e). weight depth e) (fst (handle_targets cur_key d ts (q, st)))),
    add_mset (weight depth d) (mset (map (\<lambda>(k, s, e). weight depth e) q))) \<in> mult less_than"
proof -
  assume lt: "\<not> depth \<le> d"
  obtain new where new: "fst (handle_targets cur_key d ts (q, st)) = q @ new"
      "\<forall>(k, s, e)\<in>set new. e = d + 1"
    using handle_targets_queue [of cur_key d ts q st] by blast
  have "\<forall>w\<in>#mset (map (\<lambda>(k, s, e). weight depth e) new). w < weight depth d"
    using new(2) lt by (auto simp: weight_def)
  then show ?thesis
    using mult_replace_head [of "mset (map (\<lambda>(k, s, e). weight depth e) new)" "weight depth d"
        "mset (map (\<lambda>(k, s, e). weight depth e) q)"]
    by (simp add: new(1))
qed

function crawl_loop_via_s2 ::
  "catalog \<Rightarrow> params \<Rightarrow> (string \<times> pyid \<times> int) list \<Rightarrow> crawl_state \<Rightarrow> crawl_state" where
  "crawl_loop_via_s2 cat prm [] st = st"
| "crawl_loop_via_s2 cat prm ((cur_key, cur_s2, d) # q) st =
     (if d \<ge> p_depth prm then crawl_loop_via_s2 cat prm q st
      else
        (let (s2_refs, st1) = s2_fetch_refs cat cur_s2 st;
             (keep_targets, st2) = run_workers cat prm (completion_refs cat s2_refs) st1;
             (q', st3) = handle_targets cur_key d keep_targets (q, st2)
         in crawl_loop_via_s2 cat prm q' st3))"
  by pat_completeness auto

termination crawl_loop_via_s2
  apply (relation "inv_image (mult less_than)
           (\<lambda>(cat, prm, q, st). mset (map (\<lambda>(k, s, d). weight (p_depth prm) d) q))")
    apply (simp add: wf_mult)
   apply (simp add: mult_drop_head)
  subgoal for cat prm cur_key cur_s2 d q st x xa y xb xc ya
    using queue_decreases [of "p_depth prm" d cur_key xc q ya]
    by (simp add: case_prod_beta)
  done

definition crawl_references_via_s2 ::
  "catalog \<Rightarrow> params \<Rightarrow> string \<Rightarrow> string \<Rightarrow> crawl_state \<Rightarrow> error + crawl_state" where
  "crawl_references_via_s2 cat prm seed_oa_id seed_s2_id st0 =
     (case oa_get_or_fetch cat seed_oa_id st0 of
        (None, st1) \<Rightarrow> Inl (FetchFailed seed_oa_id)
      | (Some seed_json, st1) \<Rightarrow>
          Inr (crawl_loop_via_s2 cat prm [(seed_oa_id, IdStr seed_s2_id, 0)]
            (st1\<lparr>nodes := (nodes st1)(seed_oa_id \<mapsto>
                    (from_openalex_json seed_json ''mixed'')\<lparr>s2_paper_id := Some (IdStr seed_s2_id)\<rparr>),
                 seen := {seed_oa_id},
                 enqueued := [seed_oa_id]\<rparr>)))"

subsection \<open>The HTTP helper\<close>

datatype response =
    Status nat string "string option"
      \<comment> \<open>a response: \<open>status_code\<close>, \<open>text\<close>, and what \<open>json()\<close> returns, \<open>None\<close> when the
          body is not JSON (\<open>json()\<close> then raises \<open>JSONDecodeError\<close>, a \<open>RequestException\<close>)\<close>
  | ConnectionError
      \<comment> \<open>\<open>session.get\<close> raises a \<open>RequestException\<close>\<close>

datatype net_error =
    HttpError nat string      \<comment> \<open>\<open>RuntimeError("HTTP <code>: <text[:200]>")\<close>\<close>
  | RequestException
  | JSONDecodeError
  | UnknownNetworkError       \<comment> \<open>\<open>RuntimeError("Unknown network error")\<close>\<close>

datatype pause =
    Backoff nat         \<comment> \<open>\<open>time.sleep(backoff ** attempt)\<close>\<close>
  | BackoffJitter nat   \<comment> \<open>\<open>time.sleep((backoff ** attempt) + 0.5)\<close>\<close>

record get_result =
  outcome :: "net_error + string"   \<comment> \<open>the error raised, or the JSON value returned\<close>
  attempts :: nat                   \<comment> \<open>how many requests were sent\<close>
  sleeps :: "pause list"            \<comment> \<open>the calls of \<open>time.sleep\<close>, in order\<close>

definition retryable_status :: "nat \<Rightarrow> bool" where
  \<comment> \<open>\<open>resp.status_code in (429, 503, 502, 504)\<close>\<close>
  "retryable_status code = (code \<in> {429, 503, 502, 504})"

fun safe_get_from ::
  "(nat \<Rightarrow> response) \<Rightarrow> nat \<Rightarrow> nat \<Rightarrow> net_error option \<Rightarrow> pause list \<Rightarrow> get_result" where
  \<comment> \<open>the loop \<open>for attempt in range(retries)\<close> with \<open>n\<close> iterations left;
      \<open>resp attempt\<close> is what the server answers to that attempt\<close>
  "safe_get_from resp 0 attempt last_err sl =
     \<lparr> outcome = Inl (case last_err of Some e \<Rightarrow> e | None \<Rightarrow> UnknownNetworkError),
       attempts = attempt, sleeps = sl \<rparr>"
| "safe_get_from resp (Suc n) attempt last_err sl =
     (case resp attempt of
        Status code body js \<Rightarrow>
          if code = 200 then
            (case js of
               Some v \<Rightarrow> \<lparr> outcome = Inr v, attempts = Suc attempt, sleeps = sl \<rparr>
             | None \<Rightarrow>
                 safe_get_from resp n (Suc attempt) (Some JSONDecodeError) (sl @ [Backoff attempt]))
          else if retryable_status code
          then safe_get_from resp n (Suc attempt) last_err (sl @ [BackoffJitter attempt])
          else safe_get_from resp n (Suc attempt) (Some (HttpError code (take 200 body)))
                 (sl @ [Backoff attempt])
      | ConnectionError \<Rightarrow>
          safe_get_from resp n (Suc attempt) (Some RequestException) (sl @ [Backoff attempt]))"

definition safe_get :: "(nat \<Rightarrow> response) \<Rightarrow> nat \<Rightarrow> get_result" where
  \<comment> \<open>the durations slept are recorded as the expressions of the source, not computed\<close>
  "safe_get resp retries = safe_get_from resp retries 0 None []"

subsection \<open>Concrete inputs\<close>

definition blank_work :: oa_work where
  \<comment> \<open>a catalog record in which every field that the crawler reads is absent\<close>
  "blank_work =
     \<lparr> j_nonempty = True, j_id = None, j_doi = None, j_title = None, j_publication_year = None,
       j_host_venue = None, j_type = None, j_authorships = [], j_cited_by_count = CNull,
       j_is_retracted = None, j_referenced_works = [] \<rparr>"

definition resp_404_then_200 :: "nat \<Rightarrow> response" where
  "resp_404_then_200 k =
     (if k = 0 then Status 404 ''not found'' None else Status 200 ''{}'' (Some ''{}''))"

definition resp_503_404_200 :: "nat \<Rightarrow> response" where
  "resp_503_404_200 k =
     (if k = 0 then Status 503 ''busy'' None
      else if k = 1 then Status 404 ''not found'' None
      else Status 200 ''{}'' (Some ''{}''))"

definition resp_404_then_503 :: "nat \<Rightarrow> response" where
  "resp_404_then_503 k = (if k = 0 then Status 404 ''not found'' None else Status 503 ''busy'' None)"

definition resp_always_503 :: "nat \<Rightarrow> response" where
  "resp_always_503 k = Status 503 ''busy'' None"

definition no_catalog :: catalog where
  "no_catalog =
     \<lparr> oa_doi_results = (\<lambda>_. None), oa_search_results = (\<lambda>_. None),
       oa_work_json = (\<lambda>_. None), s2_references = (\<lambda>_. None),
       completion_ids = (\<lambda>xs. xs), completion_refs = (\<lambda>rs. rs) \<rparr>"

definition blank_ref :: s2_ref where
  "blank_ref =
     \<lparr> r_paperId = None, r_title = None, r_year = None, r_DOI = None, r_ArXiv = None,
       r_CorpusId = None \<rparr>"

definition empty_state :: crawl_state where
  "empty_state = init_state (\<lambda>_. None) (\<lambda>_. None)"

definition catalog_doi_unknown :: catalog where
  "catalog_doi_unknown =
     no_catalog\<lparr> oa_doi_results := (\<lambda>_. Some []),
                 oa_search_results := (\<lambda>_. Some [Some ''https://openalex.org/W5'']) \<rparr>"

definition ref_doi_title :: s2_ref where
  "ref_doi_title =
     blank_ref\<lparr> r_DOI := Some ''10.1000/x'',
                r_title := Some ''A large N limit of superconformal theories'',
                r_paperId := Some ''abc'' \<rparr>"

definition ref_doi_only :: s2_ref where
  "ref_doi_only = blank_ref\<lparr> r_DOI := Some ''10.1000/x'' \<rparr>"

definition catalog_arxiv_unknown :: catalog where
  "catalog_arxiv_unknown =
     no_catalog\<lparr> oa_search_results :=
       (\<lambda>x. if x = ''hep-th/9711200'' then Some [] else Some [Some ''https://openalex.org/W5'']) \<rparr>"

definition ref_arxiv_title :: s2_ref where
  "ref_arxiv_title =
     blank_ref\<lparr> r_ArXiv := Some ''hep-th/9711200'',
                r_title := Some ''A large N limit of superconformal theories'' \<rparr>"

definition catalog_search_empty :: catalog where
  "catalog_search_empty = no_catalog\<lparr> oa_search_results := (\<lambda>_. Some []) \<rparr>"

definition ref_title_s2 :: s2_ref where
  "ref_title_s2 =
     blank_ref\<lparr> r_title := Some ''A large N limit of superconformal theories'',
                r_paperId := Some ''abc'' \<rparr>"

lemmas eval_defs =
  map_s2_ref_to_openalex_def no_catalog_def blank_ref_def
  empty_state_def init_state_def normalize_doi_def truthy_str_def strip_def is_space_def startswith_def lower_def
  lower_char_def ref_s2id_def map_cache_get_def oa_get_works_def first_id_def map_cache_set_def Let_def




definition catalog_three_refs :: catalog where
  \<comment> \<open>the seed W1 cites W2 (50 citations), W3 (2 citations) and W4 (count absent)\<close>
  "catalog_three_refs =
     no_catalog\<lparr> oa_work_json :=
       [''W1'' \<mapsto> blank_work\<lparr>j_referenced_works :=
                    [Some ''https://openalex.org/W2'', Some ''https://openalex.org/W3'',
                     Some ''https://openalex.org/W4'']\<rparr>,
        ''W2'' \<mapsto> blank_work\<lparr>j_cited_by_count := CInt 50\<rparr>,
        ''W3'' \<mapsto> blank_work\<lparr>j_cited_by_count := CInt 2\<rparr>,
        ''W4'' \<mapsto> blank_work] \<rparr>"

definition params_keep_leaves :: params where
  "params_keep_leaves =
     \<lparr> p_depth = 1, p_min_citations = 10, p_prune_below = False, p_strict_threshold = False,
       p_keep_unmapped = False \<rparr>"

definition params_prune :: params where
  "params_prune =
     \<lparr> p_depth = 1, p_min_citations = 10, p_prune_below = True, p_strict_threshold = False,
       p_keep_unmapped = False \<rparr>"

definition catalog_duplicate_ref :: catalog where
  \<comment> \<open>the seed W1 lists W2 twice among its references\<close>
  "catalog_duplicate_ref =
     no_catalog\<lparr> oa_work_json :=
       [''W1'' \<mapsto> blank_work\<lparr>j_referenced_works :=
                    [Some ''https://openalex.org/W2'', Some ''https://openalex.org/W2'']\<rparr>,
        ''W2'' \<mapsto> blank_work\<lparr>j_cited_by_count := CInt 50\<rparr>] \<rparr>"

definition params_depth2 :: params where
  "params_depth2 =
     \<lparr> p_depth = 2, p_min_citations = 10, p_prune_below = False, p_strict_threshold = False,
       p_keep_unmapped = False \<rparr>"

lemmas crawl_eval_defs =
  crawl_references_openalex_def oa_get_or_fetch_def init_state_def handle_child_def
  passes_threshold_from_oa_json_def Let_def no_catalog_def blank_work_def child_ids_of_def
  last_seg_def startswith_def empty_state_def

section \<open>Properties\<close>

text \<open>
  C7. The threshold predicate holds exactly when the citation count is a known integer
  that is at least \<open>min_citations\<close>, or the count is unknown (absent, null, or not
  convertible to an integer) and strict mode is off. An unknown count therefore fails
  exactly when strict mode is on, whatever \<open>min_citations\<close> is.
\<close>

theorem passes_threshold_iff:
  "passes_threshold_from_oa_json j m strict =
     ((\<exists>c. j_cited_by_count j = CInt c \<and> m \<le> c) \<or>
      ((\<forall>c. j_cited_by_count j \<noteq> CInt c) \<and> strict = False))"
  by (cases "j_cited_by_count j") (simp_all add: passes_threshold_from_oa_json_def)

theorem passes_threshold_iff_witness:
  "passes_threshold_from_oa_json blank_work 10 False \<and>
   \<not> passes_threshold_from_oa_json blank_work 10 True \<and>
   passes_threshold_from_oa_json (blank_work\<lparr>j_cited_by_count := CInt 50\<rparr>) 10 True \<and>
   \<not> passes_threshold_from_oa_json (blank_work\<lparr>j_cited_by_count := CInt 2\<rparr>) 10 False"
  using passes_threshold_iff [of blank_work 10 False] passes_threshold_iff [of blank_work 10 True]
    passes_threshold_iff [of "blank_work\<lparr>j_cited_by_count := CInt 50\<rparr>" 10 True]
    passes_threshold_iff [of "blank_work\<lparr>j_cited_by_count := CInt 2\<rparr>" 10 False]
  by (simp add: blank_work_def)

text \<open>
  C10. A node built from a primary-catalog record never has \<open>None\<close> as its citation
  count or as its retraction flag: an absent, null or zero count is stored as the
  integer 0 and an absent flag as \<open>False\<close>. A record without a count, which the
  threshold helper treats as unknown (it passes exactly when strict mode is off), yields
  the same node as the record with the count 0.
\<close>

theorem node_count_never_none:
  "cited_by_count (from_openalex_json j src) \<noteq> CNull \<and>
   is_retracted (from_openalex_json j src) \<noteq> None \<and>
   cited_by_count (from_openalex_json (j\<lparr>j_cited_by_count := CNull\<rparr>) src) = CInt 0 \<and>
   cited_by_count (from_openalex_json (j\<lparr>j_cited_by_count := CInt 0\<rparr>) src) = CInt 0 \<and>
   is_retracted (from_openalex_json (j\<lparr>j_is_retracted := None\<rparr>) src) = Some False \<and>
   from_openalex_json (j\<lparr>j_cited_by_count := CNull\<rparr>) src =
     from_openalex_json (j\<lparr>j_cited_by_count := CInt 0\<rparr>) src \<and>
   passes_threshold_from_oa_json (j\<lparr>j_cited_by_count := CNull\<rparr>) m strict = (\<not> strict)"
proof -
  have "cited_by_count (from_openalex_json j src) \<noteq> CNull"
    by (cases "j_cited_by_count j") (simp_all add: from_openalex_json_def)
  moreover have "is_retracted (from_openalex_json j src) \<noteq> None"
    by (cases "j_is_retracted j") (auto simp add: from_openalex_json_def)
  ultimately show ?thesis
    by (simp add: from_openalex_json_def passes_threshold_from_oa_json_def)
qed

theorem node_count_never_none_witness:
  "cited_by_count (from_openalex_json (blank_work\<lparr>j_cited_by_count := CNull\<rparr>) ''openalex'') = CInt 0 \<and>
   is_retracted (from_openalex_json (blank_work\<lparr>j_is_retracted := None\<rparr>) ''openalex'') = Some False \<and>
   passes_threshold_from_oa_json (blank_work\<lparr>j_cited_by_count := CNull\<rparr>) 1 False"
  using node_count_never_none [of blank_work "''openalex''" 1 False] by blast

subsection \<open>The HTTP helper\<close>

lemma safe_get_from_failed_step:
  assumes "\<forall>b v. resp a \<noteq> Status 200 b (Some v)"
  shows "safe_get_from resp (Suc n) a le sl =
     safe_get_from resp n (Suc a)
       (case resp a of
          Status c b js \<Rightarrow>
            if c = 200 then Some JSONDecodeError
            else if retryable_status c then le else Some (HttpError c (take 200 b))
        | ConnectionError \<Rightarrow> Some RequestException)
       (sl @ [case resp a of
                Status c b js \<Rightarrow> if retryable_status c then BackoffJitter a else Backoff a
              | ConnectionError \<Rightarrow> Backoff a])"
proof (cases "resp a")
  case (Status c b js)
  then show ?thesis
    using assms by (cases js) (auto simp add: retryable_status_def)
next
  case ConnectionError
  then show ?thesis by simp
qed

lemma safe_get_from_first_ok:
  "\<forall>i<k. \<forall>b v. resp (a + i) \<noteq> Status 200 b (Some v) \<Longrightarrow> k < n \<Longrightarrow>
   resp (a + k) = Status 200 body (Some v) \<Longrightarrow>
   safe_get_from resp n a le sl =
     \<lparr> outcome = Inr v, attempts = Suc (a + k),
       sleeps = sl @ map (\<lambda>i. case resp i of
                  Status c b js \<Rightarrow> if retryable_status c then BackoffJitter i else Backoff i
                | ConnectionError \<Rightarrow> Backoff i) [a..<a + k] \<rparr>"
proof (induction k arbitrary: n a le sl)
  case 0
  then obtain m where "n = Suc m" by (cases n) auto
  with 0 show ?case by simp
next
  case (Suc k)
  then obtain m where n: "n = Suc m" by (cases n) auto
  have h: "\<forall>i<k. \<forall>b v. resp (Suc a + i) \<noteq> Status 200 b (Some v)"
    using Suc.prems(1) by (metis Suc_less_eq add_Suc_shift)
  have h2: "resp (Suc a + k) = Status 200 body (Some v)" using Suc.prems(3) by simp
  have h3: "k < m" using Suc.prems(2) n by simp
  have h0: "\<forall>b v. resp a \<noteq> Status 200 b (Some v)" using Suc.prems(1) [rule_format, of 0] by simp
  have u: "[a..<Suc (a + k)] = a # [Suc a..<Suc (a + k)]" by (simp add: upt_conv_Cons)
  show ?case
    unfolding n safe_get_from_failed_step [of resp a, OF h0]
    by (simp add: Suc.IH [OF h h3 h2] u del: upt_Suc)
qed

lemma safe_get_from_exhausted:
  "\<forall>i<n. \<forall>b v. resp (a + i) \<noteq> Status 200 b (Some v) \<Longrightarrow>
   attempts (safe_get_from resp n a le sl) = a + n \<and>
   sleeps (safe_get_from resp n a le sl) =
     sl @ map (\<lambda>i. case resp i of
                  Status c b js \<Rightarrow> if retryable_status c then BackoffJitter i else Backoff i
                | ConnectionError \<Rightarrow> Backoff i) [a..<a + n]"
proof (induction n arbitrary: a le sl)
  case 0
  show ?case by simp
next
  case (Suc n)
  have h: "\<forall>i<n. \<forall>b v. resp (Suc a + i) \<noteq> Status 200 b (Some v)"
    using Suc.prems(1) by (metis Suc_less_eq add_Suc_shift)
  have h0: "\<forall>b v. resp a \<noteq> Status 200 b (Some v)" using Suc.prems(1) [rule_format, of 0] by simp
  have u: "[a..<Suc (a + n)] = a # [Suc a..<Suc (a + n)]" by (simp add: upt_conv_Cons)
  show ?case
    unfolding safe_get_from_failed_step [of resp a, OF h0]
    by (simp add: Suc.IH [OF h] u del: upt_Suc)
qed

lemma safe_get_from_all_retryable:
  "\<forall>i<n. \<exists>c b js. resp (a + i) = Status c b js \<and> retryable_status c \<Longrightarrow>
   outcome (safe_get_from resp n a le sl) =
     Inl (case le of Some e \<Rightarrow> e | None \<Rightarrow> UnknownNetworkError)"
proof (induction n arbitrary: a sl)
  case 0
  show ?case by simp
next
  case (Suc n)
  have h: "\<forall>i<n. \<exists>c b js. resp (Suc a + i) = Status c b js \<and> retryable_status c"
    using Suc.prems(1) by (metis Suc_less_eq add_Suc_shift)
  obtain c b js where r: "resp a = Status c b js" "retryable_status c"
    using Suc.prems(1) [rule_format, of 0] by auto
  have "c \<noteq> 200" using r(2) by (auto simp add: retryable_status_def)
  then show ?case
    using r Suc.IH [OF h] by simp
qed

lemma safe_get_from_last_error:
  "\<forall>i<n. \<forall>b v. resp (a + i) \<noteq> Status 200 b (Some v) \<Longrightarrow> j < n \<Longrightarrow>
   \<forall>c b js. resp (a + j) = Status c b js \<longrightarrow> \<not> retryable_status c \<Longrightarrow>
   \<forall>i. j < i \<and> i < n \<longrightarrow> (\<exists>c b js. resp (a + i) = Status c b js \<and> retryable_status c) \<Longrightarrow>
   outcome (safe_get_from resp n a le sl) =
     Inl (case resp (a + j) of
            Status c b js \<Rightarrow> if c = 200 then JSONDecodeError else HttpError c (take 200 b)
          | ConnectionError \<Rightarrow> RequestException)"
proof (induction j arbitrary: n a le sl)
  case 0
  then obtain m where n: "n = Suc m" by (cases n) auto
  have h0: "\<forall>b v. resp a \<noteq> Status 200 b (Some v)" using "0.prems"(1) [rule_format, of 0] n by simp
  have rest: "\<forall>i<m. \<exists>c b js. resp (Suc a + i) = Status c b js \<and> retryable_status c"
    using "0.prems"(4) n by (metis Suc_less_eq add_Suc_shift zero_less_Suc)
  have nr: "\<forall>c b js. resp a = Status c b js \<longrightarrow> \<not> retryable_status c"
    using "0.prems"(3) by simp
  show ?case
    unfolding n safe_get_from_failed_step [of resp a, OF h0] safe_get_from_all_retryable [OF rest]
    using nr by (cases "resp a") (auto)
next
  case (Suc j)
  then obtain m where n: "n = Suc m" by (cases n) auto
  have h0: "\<forall>b v. resp a \<noteq> Status 200 b (Some v)" using Suc.prems(1) [rule_format, of 0] n by simp
  have h: "\<forall>i<m. \<forall>b v. resp (Suc a + i) \<noteq> Status 200 b (Some v)"
    using Suc.prems(1) n by (metis Suc_less_eq add_Suc_shift)
  have jm: "j < m" using Suc.prems(2) n by simp
  have nr: "\<forall>c b js. resp (Suc a + j) = Status c b js \<longrightarrow> \<not> retryable_status c"
    using Suc.prems(3) by simp
  have rest: "\<forall>i. j < i \<and> i < m \<longrightarrow> (\<exists>c b js. resp (Suc a + i) = Status c b js \<and> retryable_status c)"
  proof (intro allI impI)
    fix i assume "j < i \<and> i < m"
    then have "Suc j < Suc i \<and> Suc i < n" using n by simp
    from Suc.prems(4) [rule_format, OF this] show "\<exists>c b js. resp (Suc a + i) = Status c b js \<and> retryable_status c"
      by simp
  qed
  show ?case
    unfolding n safe_get_from_failed_step [of resp a, OF h0]
    using Suc.IH [OF h jm nr rest] by simp
qed

text \<open>
  C3 (as the code has it). A response whose status is not 200 and not one of 429, 502,
  503, 504 does not end the call: the helper records that status error, sleeps
  \<open>backoff ** attempt\<close> without the jitter and makes the next attempt, as it does after
  a connection-level error (a status 200 whose body is not JSON counts as one). After
  429, 502, 503 or 504 it sleeps \<open>backoff ** attempt + 0.5\<close> and records no error. The
  call returns the JSON value of the first answer with status 200 and a JSON body among
  its \<open>retries\<close> attempts. If there is none, it fails after exactly \<open>retries\<close> attempts
  and as many sleeps, raising the error recorded by the last attempt that recorded one,
  or the unknown network error when every attempt was answered 429, 502, 503 or 504.
\<close>

theorem safe_get_retries_every_failure:
  "(k < retries \<and> (\<forall>i<k. \<forall>b v. resp i \<noteq> Status 200 b (Some v)) \<and>
    resp k = Status 200 body (Some v) \<longrightarrow>
      safe_get resp retries =
        \<lparr> outcome = Inr v, attempts = Suc k,
          sleeps = map (\<lambda>i. case resp i of
                     Status c b js \<Rightarrow> if retryable_status c then BackoffJitter i else Backoff i
                   | ConnectionError \<Rightarrow> Backoff i) [0..<k] \<rparr>) \<and>
   ((\<forall>i<retries. \<forall>b v. resp i \<noteq> Status 200 b (Some v)) \<longrightarrow>
      attempts (safe_get resp retries) = retries \<and>
      sleeps (safe_get resp retries) =
        map (\<lambda>i. case resp i of
               Status c b js \<Rightarrow> if retryable_status c then BackoffJitter i else Backoff i
             | ConnectionError \<Rightarrow> Backoff i) [0..<retries]) \<and>
   ((\<forall>i<retries. \<forall>b v. resp i \<noteq> Status 200 b (Some v)) \<and> j < retries \<and>
    (\<forall>c b js. resp j = Status c b js \<longrightarrow> \<not> retryable_status c) \<and>
    (\<forall>i. j < i \<and> i < retries \<longrightarrow> (\<exists>c b js. resp i = Status c b js \<and> retryable_status c)) \<longrightarrow>
      outcome (safe_get resp retries) =
        Inl (case resp j of
               Status c b js \<Rightarrow> if c = 200 then JSONDecodeError else HttpError c (take 200 b)
             | ConnectionError \<Rightarrow> RequestException)) \<and>
   ((\<forall>i<retries. \<exists>c b js. resp i = Status c b js \<and> retryable_status c) \<longrightarrow>
      outcome (safe_get resp retries) = Inl UnknownNetworkError) \<and>
   (retryable_status c = (c = 429 \<or> c = 502 \<or> c = 503 \<or> c = 504))"
proof (intro conjI impI)
  assume a: "k < retries \<and> (\<forall>i<k. \<forall>b v. resp i \<noteq> Status 200 b (Some v)) \<and>
    resp k = Status 200 body (Some v)"
  show "safe_get resp retries =
        \<lparr> outcome = Inr v, attempts = Suc k,
          sleeps = map (\<lambda>i. case resp i of
                     Status c b js \<Rightarrow> if retryable_status c then BackoffJitter i else Backoff i
                   | ConnectionError \<Rightarrow> Backoff i) [0..<k] \<rparr>"
    unfolding safe_get_def
    using safe_get_from_first_ok [of k resp 0 retries body v None "[]"] a by simp
next
  assume b: "\<forall>i<retries. \<forall>b v. resp i \<noteq> Status 200 b (Some v)"
  show "attempts (safe_get resp retries) = retries"
    unfolding safe_get_def
    using safe_get_from_exhausted [of retries resp 0 None "[]"] b by simp
  show "sleeps (safe_get resp retries) =
        map (\<lambda>i. case resp i of
               Status c b js \<Rightarrow> if retryable_status c then BackoffJitter i else Backoff i
             | ConnectionError \<Rightarrow> Backoff i) [0..<retries]"
    unfolding safe_get_def
    using safe_get_from_exhausted [of retries resp 0 None "[]"] b by simp
next
  assume c: "(\<forall>i<retries. \<forall>b v. resp i \<noteq> Status 200 b (Some v)) \<and> j < retries \<and>
    (\<forall>c b js. resp j = Status c b js \<longrightarrow> \<not> retryable_status c) \<and>
    (\<forall>i. j < i \<and> i < retries \<longrightarrow> (\<exists>c b js. resp i = Status c b js \<and> retryable_status c))"
  show "outcome (safe_get resp retries) =
        Inl (case resp j of
               Status c b js \<Rightarrow> if c = 200 then JSONDecodeError else HttpError c (take 200 b)
             | ConnectionError \<Rightarrow> RequestException)"
    unfolding safe_get_def
    using safe_get_from_last_error [of retries resp 0 j None "[]"] c by simp
next
  assume d: "\<forall>i<retries. \<exists>c b js. resp i = Status c b js \<and> retryable_status c"
  show "outcome (safe_get resp retries) = Inl UnknownNetworkError"
    unfolding safe_get_def
    using safe_get_from_all_retryable [of retries resp 0 None "[]"] d by simp
next
  show "retryable_status c = (c = 429 \<or> c = 502 \<or> c = 503 \<or> c = 504)"
    by (auto simp add: retryable_status_def)
qed

theorem safe_get_retries_every_failure_witness:
  "safe_get resp_503_404_200 4 =
     \<lparr> outcome = Inr ''{}'', attempts = 3, sleeps = [BackoffJitter 0, Backoff 1] \<rparr> \<and>
   outcome (safe_get resp_404_then_503 4) = Inl (HttpError 404 ''not found'') \<and>
   attempts (safe_get resp_404_then_503 4) = 4 \<and>
   sleeps (safe_get resp_404_then_503 4) = [Backoff 0, BackoffJitter 1, BackoffJitter 2, BackoffJitter 3] \<and>
   outcome (safe_get resp_always_503 4) = Inl UnknownNetworkError"
proof -
  have rs: "retryable_status 503" "\<not> retryable_status 404" "\<not> retryable_status 200"
    by (simp_all add: retryable_status_def)
  have a: "(2::nat) < 4 \<and> (\<forall>i<2. \<forall>b v. resp_503_404_200 i \<noteq> Status 200 b (Some v)) \<and>
           resp_503_404_200 2 = Status 200 ''{}'' (Some ''{}'')"
    by (auto simp: resp_503_404_200_def)
  have b: "\<forall>i<4. \<forall>b v. resp_404_then_503 i \<noteq> Status 200 b (Some v)"
    by (simp add: resp_404_then_503_def)
  have c: "(\<forall>i<4. \<forall>b v. resp_404_then_503 i \<noteq> Status 200 b (Some v)) \<and> (0::nat) < 4 \<and>
    (\<forall>c b js. resp_404_then_503 0 = Status c b js \<longrightarrow> \<not> retryable_status c) \<and>
    (\<forall>i. 0 < i \<and> i < 4 \<longrightarrow> (\<exists>c b js. resp_404_then_503 i = Status c b js \<and> retryable_status c))"
    using rs by (auto simp add: resp_404_then_503_def)
  have d: "\<forall>i<4. \<exists>c b js. resp_always_503 i = Status c b js \<and> retryable_status c"
    using rs by (simp add: resp_always_503_def)
  have u2: "[0..<2] = [0, Suc 0]" and u4: "[0..<4] = [0, 1, 2, 3::nat]"
    by code_simp+
  note t1 = safe_get_retries_every_failure [where k = 2 and retries = 4 and resp = resp_503_404_200
      and body = "''{}''" and v = "''{}''", THEN conjunct1, THEN mp, OF a]
  note t2 = safe_get_retries_every_failure [where retries = 4 and resp = resp_404_then_503,
      THEN conjunct2, THEN conjunct1, THEN mp, OF b]
  note t3 = safe_get_retries_every_failure [where retries = 4 and resp = resp_404_then_503 and j = 0,
      THEN conjunct2, THEN conjunct2, THEN conjunct1, THEN mp, OF c]
  note t4 = safe_get_retries_every_failure [where retries = 4 and resp = resp_always_503,
      THEN conjunct2, THEN conjunct2, THEN conjunct2, THEN conjunct1, THEN mp, OF d]
  show ?thesis
    using t1 t2 t3 t4 rs
    by (simp add: u2 u4 resp_503_404_200_def resp_404_then_503_def)
qed

text \<open>
  C3 as stated fails: after the status 404 the helper sleeps, asks again and returns the
  JSON value of the second answer.
\<close>

theorem safe_get_retries_after_404:
  "safe_get resp_404_then_200 4 = \<lparr> outcome = Inr ''{}'', attempts = 2, sleeps = [Backoff 0] \<rparr>"
  by (simp add: safe_get_def resp_404_then_200_def numeral_nat retryable_status_def)

subsection \<open>Resolving secondary references\<close>

lemma resolved_mapping_is_cached:
  assumes a: "map_s2_ref_to_openalex cat r st = (Some oid, st1)"
  shows "map_s2_ref_to_openalex cat r st1 = (Some oid, st1)"
proof (cases "truthy_str (normalize_doi (r_DOI r))")
  case (Some dv)
  then show ?thesis
    using a
    by (cases "map_cache_get st (''DOI:'' @ dv)")
       (auto simp add: map_s2_ref_to_openalex_def Let_def map_cache_get_def map_cache_set_def
          oa_get_works_def split: option.splits)
next
  case None
  note d = None
  show ?thesis
  proof (cases "truthy_str (r_ArXiv r)")
    case (Some av)
    then show ?thesis
      using a d
      by (cases "map_cache_get st (''ARXIV:'' @ av)")
         (auto simp add: map_s2_ref_to_openalex_def Let_def map_cache_get_def map_cache_set_def
            oa_get_works_def split: option.splits)
  next
    case None
    note x = None
    show ?thesis
    proof (cases "if truthy_id (ref_s2id r) then map_cache_get st (''S2:'' @ fmt_id (the (ref_s2id r))) else None")
      case (Some c)
      then show ?thesis
        using a d x
        by (auto simp add: map_s2_ref_to_openalex_def Let_def split: if_splits)
    next
      case None
      note s = None
      show ?thesis
      proof (cases "truthy_str (r_title r) \<noteq> None \<and> \<not> is_low_info_title (r_title r)")
        case False
        then show ?thesis
          using a d x s by (auto simp add: map_s2_ref_to_openalex_def Let_def split: if_splits)
      next
        case True
        show ?thesis
        proof (cases "map_cache_get st (''TITLE:'' @ take 200 (lower (strip (the (r_title r)))))")
          case (Some c)
          then show ?thesis
            using a d x s True by (auto simp add: map_s2_ref_to_openalex_def Let_def split: if_splits)
        next
          case None
          then show ?thesis
            using a d x s True
            by (auto simp add: map_s2_ref_to_openalex_def Let_def map_cache_get_def map_cache_set_def
                oa_get_works_def split: if_splits option.splits)
        qed
      qed
    qed
  qed
qed

text \<open>
  C2 fails on the code for a null mapping. The first resolution of a reference whose DOI
  the catalog does not know stores \<open>None\<close> under \<open>DOI:10.1000/x\<close>; the second resolution
  reads that entry with \<open>dict.get\<close>, cannot tell it from a missing key, and sends the
  same catalog query again. (A resolution that gives an ID is repeated from the cache
  without any lookup: \<open>resolved_mapping_is_cached\<close>.)
\<close>

theorem null_mapping_looked_up_again:
  "fst (map_s2_ref_to_openalex catalog_doi_unknown ref_doi_only empty_state) = None \<and>
   MAP_CACHE (snd (map_s2_ref_to_openalex catalog_doi_unknown ref_doi_only empty_state)) ''DOI:10.1000/x''
     = Some None \<and>
   net_log (snd (map_s2_ref_to_openalex catalog_doi_unknown ref_doi_only empty_state))
     = [OA_filter_doi ''10.1000/x''] \<and>
   fst (map_s2_ref_to_openalex catalog_doi_unknown ref_doi_only
          (snd (map_s2_ref_to_openalex catalog_doi_unknown ref_doi_only empty_state))) = None \<and>
   net_log (snd (map_s2_ref_to_openalex catalog_doi_unknown ref_doi_only
          (snd (map_s2_ref_to_openalex catalog_doi_unknown ref_doi_only empty_state))))
     = [OA_filter_doi ''10.1000/x'', OA_filter_doi ''10.1000/x'']"
  by (simp add: eval_defs catalog_doi_unknown_def ref_doi_only_def)

lemma descriptive_title_not_low_info:
  "\<not> is_low_info_title (Some ''A large N limit of superconformal theories'')"
  by code_simp

text \<open>
  C4 (as the code has it). Whenever the catalog lookup of a tier (DOI, preprint
  identifier, title) returns zero results, the resolver stores a null mapping under the
  key of that tier (the title tier also under the key of the secondary ID, when the
  reference has one) and ends the resolution at that tier with the result null, after
  this single lookup: it does not go on to the next tier.
\<close>

theorem zero_results_end_resolution:
  "(ascii_field (r_DOI r) \<and> truthy_str (normalize_doi (r_DOI r)) = Some dv \<and>
    map_cache_get st (''DOI:'' @ dv) = None \<and> oa_doi_results cat dv = Some [] \<longrightarrow>
      map_s2_ref_to_openalex cat r st =
        (None, st\<lparr>MAP_CACHE := (MAP_CACHE st)(''DOI:'' @ dv \<mapsto> None),
                   net_log := net_log st @ [OA_filter_doi dv]\<rparr>)) \<and>
   (ascii_field (r_DOI r) \<and> truthy_str (normalize_doi (r_DOI r)) = None \<and>
    truthy_str (r_ArXiv r) = Some av \<and>
    map_cache_get st (''ARXIV:'' @ av) = None \<and> oa_search_results cat av = Some [] \<longrightarrow>
      map_s2_ref_to_openalex cat r st =
        (None, st\<lparr>MAP_CACHE := (MAP_CACHE st)(''ARXIV:'' @ av \<mapsto> None),
                   net_log := net_log st @ [OA_search av]\<rparr>)) \<and>
   (ascii_field (r_DOI r) \<and> ascii_field (r_title r) \<and>
    truthy_str (normalize_doi (r_DOI r)) = None \<and> truthy_str (r_ArXiv r) = None \<and>
    (truthy_id (ref_s2id r) \<longrightarrow> map_cache_get st (''S2:'' @ fmt_id (the (ref_s2id r))) = None) \<and>
    r_title r = Some tv \<and> tv \<noteq> [] \<and> \<not> is_low_info_title (r_title r) \<and>
    map_cache_get st (''TITLE:'' @ take 200 (lower (strip tv))) = None \<and>
    oa_search_results cat tv = Some [] \<longrightarrow>
      map_s2_ref_to_openalex cat r st =
        (None,
         if truthy_id (ref_s2id r)
         then st\<lparr>MAP_CACHE := (MAP_CACHE st)
                     (''TITLE:'' @ take 200 (lower (strip tv)) \<mapsto> None,
                      ''S2:'' @ fmt_id (the (ref_s2id r)) \<mapsto> None),
                  net_log := net_log st @ [OA_search tv]\<rparr>
         else st\<lparr>MAP_CACHE := (MAP_CACHE st)(''TITLE:'' @ take 200 (lower (strip tv)) \<mapsto> None),
                  net_log := net_log st @ [OA_search tv]\<rparr>))"
proof (intro conjI impI, goal_cases)
  case 1
  then show ?case
    by (simp add: map_s2_ref_to_openalex_def Let_def oa_get_works_def first_id_def map_cache_set_def)
next
  case 2
  then show ?case
    by (simp add: map_s2_ref_to_openalex_def Let_def oa_get_works_def first_id_def map_cache_set_def)
next
  case 3
  then show ?case
    by (auto simp add: map_s2_ref_to_openalex_def Let_def oa_get_works_def first_id_def
        map_cache_set_def truthy_str_def)
qed

theorem zero_results_end_resolution_witness:
  "map_s2_ref_to_openalex catalog_doi_unknown ref_doi_only empty_state =
     (None, empty_state\<lparr>MAP_CACHE := (MAP_CACHE empty_state)(''DOI:10.1000/x'' \<mapsto> None),
                        net_log := net_log empty_state @ [OA_filter_doi ''10.1000/x'']\<rparr>) \<and>
   map_s2_ref_to_openalex catalog_arxiv_unknown ref_arxiv_title empty_state =
     (None, empty_state\<lparr>MAP_CACHE := (MAP_CACHE empty_state)(''ARXIV:hep-th/9711200'' \<mapsto> None),
                        net_log := net_log empty_state @ [OA_search ''hep-th/9711200'']\<rparr>) \<and>
   map_s2_ref_to_openalex catalog_search_empty ref_title_s2 empty_state =
     (None, empty_state\<lparr>MAP_CACHE := (MAP_CACHE empty_state)
                          (''TITLE:a large n limit of superconformal theories'' \<mapsto> None,
                           ''S2:abc'' \<mapsto> None),
                        net_log := net_log empty_state @
                          [OA_search ''A large N limit of superconformal theories'']\<rparr>)"
proof -
  have a: "ascii_field (r_DOI ref_doi_only) \<and>
           truthy_str (normalize_doi (r_DOI ref_doi_only)) = Some ''10.1000/x'' \<and>
           map_cache_get empty_state (''DOI:'' @ ''10.1000/x'') = None \<and>
           oa_doi_results catalog_doi_unknown ''10.1000/x'' = Some []"
    by (simp add: eval_defs catalog_doi_unknown_def ref_doi_only_def ascii_field_def is_ascii_def)
  have b: "ascii_field (r_DOI ref_arxiv_title) \<and>
           truthy_str (normalize_doi (r_DOI ref_arxiv_title)) = None \<and>
           truthy_str (r_ArXiv ref_arxiv_title) = Some ''hep-th/9711200'' \<and>
           map_cache_get empty_state (''ARXIV:'' @ ''hep-th/9711200'') = None \<and>
           oa_search_results catalog_arxiv_unknown ''hep-th/9711200'' = Some []"
    by (simp add: eval_defs catalog_arxiv_unknown_def ref_arxiv_title_def ascii_field_def)
  have t: "r_title ref_title_s2 = Some ''A large N limit of superconformal theories''"
    by (simp add: ref_title_s2_def blank_ref_def)
  have c: "ascii_field (r_DOI ref_title_s2) \<and> ascii_field (r_title ref_title_s2) \<and>
    truthy_str (normalize_doi (r_DOI ref_title_s2)) = None \<and>
    truthy_str (r_ArXiv ref_title_s2) = None \<and>
    (truthy_id (ref_s2id ref_title_s2) \<longrightarrow>
       map_cache_get empty_state (''S2:'' @ fmt_id (the (ref_s2id ref_title_s2))) = None) \<and>
    r_title ref_title_s2 = Some ''A large N limit of superconformal theories'' \<and>
    ''A large N limit of superconformal theories'' \<noteq> [] \<and>
    \<not> is_low_info_title (r_title ref_title_s2) \<and>
    map_cache_get empty_state
      (''TITLE:'' @ take 200 (lower (strip ''A large N limit of superconformal theories''))) = None \<and>
    oa_search_results catalog_search_empty ''A large N limit of superconformal theories'' = Some []"
    using descriptive_title_not_low_info
    by (simp add: t eval_defs catalog_search_empty_def ref_title_s2_def ascii_field_def is_ascii_def)
  have s2: "truthy_id (ref_s2id ref_title_s2)" "fmt_id (the (ref_s2id ref_title_s2)) = ''abc''"
    "take 200 (lower (strip ''A large N limit of superconformal theories''))
       = ''a large n limit of superconformal theories''"
    by (simp_all add: eval_defs ref_title_s2_def truthy_id_def fmt_id_def)
  note t1 = zero_results_end_resolution [where r = ref_doi_only and dv = "''10.1000/x''"
      and st = empty_state and cat = catalog_doi_unknown, THEN conjunct1, THEN mp, OF a]
  note t2 = zero_results_end_resolution [where r = ref_arxiv_title and av = "''hep-th/9711200''"
      and st = empty_state and cat = catalog_arxiv_unknown, THEN conjunct2, THEN conjunct1, THEN mp, OF b]
  note t3 = zero_results_end_resolution [where r = ref_title_s2
      and tv = "''A large N limit of superconformal theories''"
      and st = empty_state and cat = catalog_search_empty, THEN conjunct2, THEN conjunct2, THEN mp, OF c]
  show ?thesis using t1 t2 t3 s2 by simp
qed

text \<open>
  C4 as stated fails: the reference below has a DOI that the catalog does not know and a
  descriptive title that the catalog's search resolves to \<open>W5\<close>. The resolver stops after
  the DOI lookup and returns null; the title tier is never tried.
\<close>

theorem doi_tier_ends_resolution:
  "map_s2_ref_to_openalex catalog_doi_unknown ref_doi_title empty_state =
     (None, empty_state\<lparr>MAP_CACHE := (MAP_CACHE empty_state)(''DOI:10.1000/x'' \<mapsto> None),
                        net_log := [OA_filter_doi ''10.1000/x'']\<rparr>) \<and>
   \<not> is_low_info_title (r_title ref_doi_title) \<and>
   oa_search_results catalog_doi_unknown ''A large N limit of superconformal theories''
     = Some [Some ''https://openalex.org/W5'']"
proof -
  have "r_title ref_doi_title = Some ''A large N limit of superconformal theories''"
    by (simp add: ref_doi_title_def blank_ref_def)
  then show ?thesis
    using descriptive_title_not_low_info
    by (simp add: eval_defs catalog_doi_unknown_def ref_doi_title_def)
qed

subsection \<open>References that cannot be mapped\<close>



text \<open>
  The workers of the secondary-mediated crawler touch only the caches and the request
  log.
\<close>

lemma oa_get_or_fetch_frame:
  "nodes (snd (oa_get_or_fetch cat oid st)) = nodes st \<and>
   edges (snd (oa_get_or_fetch cat oid st)) = edges st \<and>
   seen (snd (oa_get_or_fetch cat oid st)) = seen st \<and>
   enqueued (snd (oa_get_or_fetch cat oid st)) = enqueued st"
  by (simp add: oa_get_or_fetch_def split: option.split)

lemma map_s2_ref_to_openalex_frame:
  "nodes (snd (map_s2_ref_to_openalex cat r st)) = nodes st \<and>
   edges (snd (map_s2_ref_to_openalex cat r st)) = edges st \<and>
   seen (snd (map_s2_ref_to_openalex cat r st)) = seen st \<and>
   enqueued (snd (map_s2_ref_to_openalex cat r st)) = enqueued st"
  by (simp add: map_s2_ref_to_openalex_def Let_def map_cache_set_def oa_get_works_def
      split: option.split prod.split)

lemma worker_frame:
  "nodes (snd (worker cat prm r st)) = nodes st \<and>
   edges (snd (worker cat prm r st)) = edges st \<and>
   seen (snd (worker cat prm r st)) = seen st \<and>
   enqueued (snd (worker cat prm r st)) = enqueued st"
proof -
  obtain x st1 where m: "map_s2_ref_to_openalex cat r st = (x, st1)"
    by (cases "map_s2_ref_to_openalex cat r st")
  note g1 = map_s2_ref_to_openalex_frame [of cat r st, unfolded m, simplified]
  show ?thesis
  proof (cases "truthy_str x")
    case None
    then show ?thesis using m g1 by (simp add: worker_def)
  next
    case (Some oid)
    obtain y st2 where f: "oa_get_or_fetch cat oid st1 = (y, st2)"
      by (cases "oa_get_or_fetch cat oid st1")
    note g2 = oa_get_or_fetch_frame [of cat oid st1, unfolded f, simplified]
    show ?thesis using m Some f g1 g2 by (cases y) (simp_all add: worker_def Let_def)
  qed
qed

lemma run_workers_frame:
  "nodes (snd (run_workers cat prm rs st)) = nodes st \<and>
   edges (snd (run_workers cat prm rs st)) = edges st \<and>
   seen (snd (run_workers cat prm rs st)) = seen st \<and>
   enqueued (snd (run_workers cat prm rs st)) = enqueued st"
proof (induction rs arbitrary: st)
  case Nil
  show ?case by simp
next
  case (Cons r rs)
  obtain t st1 where w: "worker cat prm r st = (t, st1)" by (cases "worker cat prm r st")
  obtain ts st2 where rw: "run_workers cat prm rs st1 = (ts, st2)" by (cases "run_workers cat prm rs st1")
  note g1 = worker_frame [of cat prm r st, unfolded w, simplified]
  note g2 = Cons.IH [of st1, unfolded rw, simplified]
  show ?case using w rw g1 g2 by simp
qed

lemma s2_fetch_refs_frame:
  "nodes (snd (s2_fetch_refs cat cur st)) = nodes st \<and>
   edges (snd (s2_fetch_refs cat cur st)) = edges st \<and>
   seen (snd (s2_fetch_refs cat cur st)) = seen st \<and>
   enqueued (snd (s2_fetch_refs cat cur st)) = enqueued st"
  by (simp add: s2_fetch_refs_def)



















subsection \<open>The primary-only crawl of one layer\<close>

text \<open>
  The thread pool hands the completed fetches of a layer to the main loop in any order;
  for three references these are the six orders below.
\<close>

lemma perm3:
  assumes "mset ys = mset [a, b, c]"
  shows "ys \<in> {[a, b, c], [a, c, b], [b, a, c], [b, c, a], [c, a, b], [c, b, a]}"
proof -
  have "length ys = 3" using assms by (metis length_Cons list.size(3) numeral_3_eq_3 size_mset)
  then obtain x y z where ys: "ys = [x, y, z]"
    by (metis (no_types, opaque_lifting) length_0_conv length_Suc_conv numeral_3_eq_3)
  show ?thesis
    using assms unfolding ys
    by (auto simp add: add_eq_conv_ex)
qed

text \<open>
  C1 (as the code has it). The seed lists three references whose records have the
  citation counts 50, 2 and none; \<open>min_citations\<close> is 10, strict mode and pruning are
  off, the depth is 1. Whatever the order of completion, the returned graph has exactly
  4 nodes and 3 edges, and the keys appended to the frontier are the reference with
  count 50 and the reference with the unknown count: an unknown count passes the
  threshold when strict mode is off. Only the reference with count 2 is a terminal leaf.
\<close>

theorem unknown_count_reference_is_enqueued:
  assumes d: "distinct [s, a, b, c]"
    and seed: "oa_work_json cat s = Some ds" "child_ids_of (j_referenced_works ds) = [a, b, c]"
    and ra: "oa_work_json cat a = Some da" "j_cited_by_count da = CInt 50"
    and rb: "oa_work_json cat b = Some db" "j_cited_by_count db = CInt 2"
    and rc: "oa_work_json cat c = Some dc" "j_cited_by_count dc = CNull"
    and perm: "mset (completion_ids cat [a, b, c]) = mset [a, b, c]"
    and prm: "p_depth prm = 1" "p_min_citations prm = 10" "\<not> p_strict_threshold prm"
      "\<not> p_prune_below prm"
  shows "case crawl_references_openalex cat prm s (init_state mc Map.empty) of
           Inl e \<Rightarrow> False
         | Inr st \<Rightarrow>
             dom (nodes st) = {s, a, b, c} \<and> card (dom (nodes st)) = 4 \<and>
             mset (edges st) = {#(s, a), (s, b), (s, c)#} \<and> length (edges st) = 3 \<and>
             mset (enqueued st) = {#s, a, c#}"
proof -
  have ne: "s \<noteq> a" "s \<noteq> b" "s \<noteq> c" "a \<noteq> b" "a \<noteq> c" "b \<noteq> c"
    using d by auto
  from perm3 [OF perm] show ?thesis
    using ne seed ra rb rc prm
    by (elim insertE emptyE)
       (simp_all add: crawl_references_openalex_def oa_get_or_fetch_def init_state_def handle_child_def
          passes_threshold_from_oa_json_def Let_def insert_commute add_mset_commute)
qed

theorem unknown_count_reference_is_enqueued_witness:
  "case crawl_references_openalex catalog_three_refs params_keep_leaves ''W1'' (init_state (\<lambda>_. None) Map.empty) of
     Inl e \<Rightarrow> False
   | Inr st \<Rightarrow>
       dom (nodes st) = {''W1'', ''W2'', ''W3'', ''W4''} \<and> card (dom (nodes st)) = 4 \<and>
       mset (edges st) = {#(''W1'', ''W2''), (''W1'', ''W3''), (''W1'', ''W4'')#} \<and>
       length (edges st) = 3 \<and>
       mset (enqueued st) = {#''W1'', ''W2'', ''W4''#}"
proof -
  have h: "distinct [''W1'', ''W2'', ''W3'', ''W4'']"
    "oa_work_json catalog_three_refs ''W1'' = Some (blank_work\<lparr>j_referenced_works :=
        [Some ''https://openalex.org/W2'', Some ''https://openalex.org/W3'',
         Some ''https://openalex.org/W4'']\<rparr>)"
    "child_ids_of (j_referenced_works (blank_work\<lparr>j_referenced_works :=
        [Some ''https://openalex.org/W2'', Some ''https://openalex.org/W3'',
         Some ''https://openalex.org/W4'']\<rparr>)) = [''W2'', ''W3'', ''W4'']"
    "oa_work_json catalog_three_refs ''W2'' = Some (blank_work\<lparr>j_cited_by_count := CInt 50\<rparr>)"
    "j_cited_by_count (blank_work\<lparr>j_cited_by_count := CInt 50\<rparr>) = CInt 50"
    "oa_work_json catalog_three_refs ''W3'' = Some (blank_work\<lparr>j_cited_by_count := CInt 2\<rparr>)"
    "j_cited_by_count (blank_work\<lparr>j_cited_by_count := CInt 2\<rparr>) = CInt 2"
    "oa_work_json catalog_three_refs ''W4'' = Some blank_work"
    "j_cited_by_count blank_work = CNull"
    "mset (completion_ids catalog_three_refs [''W2'', ''W3'', ''W4'']) = mset [''W2'', ''W3'', ''W4'']"
    "p_depth params_keep_leaves = 1" "p_min_citations params_keep_leaves = 10"
    "\<not> p_strict_threshold params_keep_leaves" "\<not> p_prune_below params_keep_leaves"
    by (simp_all add: catalog_three_refs_def no_catalog_def blank_work_def child_ids_of_def
        last_seg_def startswith_def params_keep_leaves_def)
  show ?thesis
    by (rule unknown_count_reference_is_enqueued [OF h])
qed

text \<open>
  C1 as stated fails: the reference W4, whose record has no citation count, is appended
  to the frontier after W2.
\<close>

theorem unknown_count_reference_in_frontier:
  "j_cited_by_count (the (oa_work_json catalog_three_refs ''W4'')) = CNull \<and>
   (case crawl_references_openalex catalog_three_refs params_keep_leaves ''W1'' empty_state of
      Inl e \<Rightarrow> False
    | Inr st \<Rightarrow> enqueued st = [''W1'', ''W2'', ''W4''])"
  by (simp add: crawl_eval_defs catalog_three_refs_def params_keep_leaves_def)

text \<open>
  C5 (as the code has it). In the same scenario with pruning on, the returned graph has
  exactly 3 nodes (the seed, the reference with count 50 and the reference with the
  unknown count) and 2 edges; only the reference with count 2 is absent from the node
  map and from the edge list.
\<close>

theorem unknown_count_reference_survives_pruning:
  assumes d: "distinct [s, a, b, c]"
    and seed: "oa_work_json cat s = Some ds" "child_ids_of (j_referenced_works ds) = [a, b, c]"
    and ra: "oa_work_json cat a = Some da" "j_cited_by_count da = CInt 50"
    and rb: "oa_work_json cat b = Some db" "j_cited_by_count db = CInt 2"
    and rc: "oa_work_json cat c = Some dc" "j_cited_by_count dc = CNull"
    and perm: "mset (completion_ids cat [a, b, c]) = mset [a, b, c]"
    and prm: "p_depth prm = 1" "p_min_citations prm = 10" "\<not> p_strict_threshold prm"
      "p_prune_below prm"
  shows "case crawl_references_openalex cat prm s (init_state mc Map.empty) of
           Inl e \<Rightarrow> False
         | Inr st \<Rightarrow>
             dom (nodes st) = {s, a, c} \<and> card (dom (nodes st)) = 3 \<and>
             mset (edges st) = {#(s, a), (s, c)#} \<and> length (edges st) = 2"
proof -
  have ne: "s \<noteq> a" "s \<noteq> b" "s \<noteq> c" "a \<noteq> b" "a \<noteq> c" "b \<noteq> c"
    using d by auto
  from perm3 [OF perm] show ?thesis
    using ne seed ra rb rc prm
    by (elim insertE emptyE)
       (simp_all add: crawl_references_openalex_def oa_get_or_fetch_def init_state_def handle_child_def
          passes_threshold_from_oa_json_def Let_def insert_commute add_mset_commute)
qed

theorem unknown_count_reference_survives_pruning_witness:
  "case crawl_references_openalex catalog_three_refs params_prune ''W1'' (init_state (\<lambda>_. None) Map.empty) of
     Inl e \<Rightarrow> False
   | Inr st \<Rightarrow>
       dom (nodes st) = {''W1'', ''W2'', ''W4''} \<and> card (dom (nodes st)) = 3 \<and>
       mset (edges st) = {#(''W1'', ''W2''), (''W1'', ''W4'')#} \<and> length (edges st) = 2"
proof -
  have h: "distinct [''W1'', ''W2'', ''W3'', ''W4'']"
    "oa_work_json catalog_three_refs ''W1'' = Some (blank_work\<lparr>j_referenced_works :=
        [Some ''https://openalex.org/W2'', Some ''https://openalex.org/W3'',
         Some ''https://openalex.org/W4'']\<rparr>)"
    "child_ids_of (j_referenced_works (blank_work\<lparr>j_referenced_works :=
        [Some ''https://openalex.org/W2'', Some ''https://openalex.org/W3'',
         Some ''https://openalex.org/W4'']\<rparr>)) = [''W2'', ''W3'', ''W4'']"
    "oa_work_json catalog_three_refs ''W2'' = Some (blank_work\<lparr>j_cited_by_count := CInt 50\<rparr>)"
    "j_cited_by_count (blank_work\<lparr>j_cited_by_count := CInt 50\<rparr>) = CInt 50"
    "oa_work_json catalog_three_refs ''W3'' = Some (blank_work\<lparr>j_cited_by_count := CInt 2\<rparr>)"
    "j_cited_by_count (blank_work\<lparr>j_cited_by_count := CInt 2\<rparr>) = CInt 2"
    "oa_work_json catalog_three_refs ''W4'' = Some blank_work"
    "j_cited_by_count blank_work = CNull"
    "mset (completion_ids catalog_three_refs [''W2'', ''W3'', ''W4'']) = mset [''W2'', ''W3'', ''W4'']"
    "p_depth params_prune = 1" "p_min_citations params_prune = 10"
    "\<not> p_strict_threshold params_prune" "p_prune_below params_prune"
    by (simp_all add: catalog_three_refs_def no_catalog_def blank_work_def child_ids_of_def
        last_seg_def startswith_def params_prune_def)
  show ?thesis
    by (rule unknown_count_reference_survives_pruning [OF h])
qed

text \<open>
  C5 as stated fails: the pruned graph keeps W4, the reference without a citation count.
\<close>

theorem pruned_graph_has_three_nodes:
  "j_cited_by_count (the (oa_work_json catalog_three_refs ''W4'')) = CNull \<and>
   (case crawl_references_openalex catalog_three_refs params_prune ''W1'' empty_state of
      Inl e \<Rightarrow> False
    | Inr st \<Rightarrow>
        dom (nodes st) = {''W1'', ''W2'', ''W4''} \<and>
        edges st = [(''W1'', ''W2''), (''W1'', ''W4'')])"
  by (simp add: crawl_eval_defs catalog_three_refs_def params_prune_def insert_commute)


subsection \<open>Uniqueness of frontier keys\<close>

text \<open>
  The secondary-mediated loop adds a key to \<open>seen_keys\<close> at the moment it appends the
  key to the frontier, so no key is appended twice.
\<close>

lemma handle_target_distinct:
  "distinct (enqueued st) \<and> set (enqueued st) \<subseteq> seen st \<Longrightarrow>
   distinct (enqueued (snd (handle_target cur_key d t (q, st)))) \<and>
   set (enqueued (snd (handle_target cur_key d t (q, st)))) \<subseteq> seen (snd (handle_target cur_key d t (q, st)))"
  by (auto simp add: handle_target_def Let_def split: option.split)

lemma handle_targets_distinct:
  "distinct (enqueued st) \<and> set (enqueued st) \<subseteq> seen st \<Longrightarrow>
   distinct (enqueued (snd (handle_targets cur_key d ts (q, st)))) \<and>
   set (enqueued (snd (handle_targets cur_key d ts (q, st)))) \<subseteq> seen (snd (handle_targets cur_key d ts (q, st)))"
proof (induction ts arbitrary: q st)
  case Nil
  then show ?case by simp
next
  case (Cons t ts)
  obtain q1 st1 where h: "handle_target cur_key d t (q, st) = (q1, st1)"
    by (cases "handle_target cur_key d t (q, st)")
  have "distinct (enqueued st1) \<and> set (enqueued st1) \<subseteq> seen st1"
    using handle_target_distinct [OF Cons.prems, of cur_key d t q] h by simp
  from Cons.IH [OF this, of q1] show ?case using h by simp
qed

lemma crawl_loop_via_s2_distinct:
  "distinct (enqueued st) \<and> set (enqueued st) \<subseteq> seen st \<Longrightarrow>
   distinct (enqueued (crawl_loop_via_s2 cat prm q st))"
proof (induction cat prm q st rule: crawl_loop_via_s2.induct)
  case (1 cat prm st)
  then show ?case by simp
next
  case (2 cat prm cur_key cur_s2 d q st)
  show ?case
  proof (cases "p_depth prm \<le> d")
    case True
    then show ?thesis using 2 by simp
  next
    case False
    obtain s2_refs st1 where a: "s2_fetch_refs cat cur_s2 st = (s2_refs, st1)"
      by (cases "s2_fetch_refs cat cur_s2 st")
    obtain keep_targets st2 where b: "run_workers cat prm (completion_refs cat s2_refs) st1 = (keep_targets, st2)"
      by (cases "run_workers cat prm (completion_refs cat s2_refs) st1")
    obtain q' st3 where c: "handle_targets cur_key d keep_targets (q, st2) = (q', st3)"
      by (cases "handle_targets cur_key d keep_targets (q, st2)")
    note f1 = s2_fetch_refs_frame [of cat cur_s2 st, unfolded a, simplified]
    note f2 = run_workers_frame [of cat prm "completion_refs cat s2_refs" st1, unfolded b, simplified]
    have i2: "distinct (enqueued st2) \<and> set (enqueued st2) \<subseteq> seen st2"
      using "2.prems" f1 f2 by simp
    have i3: "distinct (enqueued st3) \<and> set (enqueued st3) \<subseteq> seen st3"
      using handle_targets_distinct [OF i2, of cur_key d keep_targets q] c by simp
    have "distinct (enqueued (crawl_loop_via_s2 cat prm q' st3))"
      using "2.IH"(2) [OF _ a [symmetric] refl b [symmetric] refl c [symmetric] refl i3] False by simp
    then show ?thesis using False a b c by simp
  qed
qed

lemma via_s2_enqueues_each_key_once:
  "crawl_references_via_s2 cat prm seed_oa_id seed_s2_id (init_state mc recs) = Inr st \<Longrightarrow>
   distinct (enqueued st)"
proof -
  assume r: "crawl_references_via_s2 cat prm seed_oa_id seed_s2_id (init_state mc recs) = Inr st"
  obtain y st1 where f: "oa_get_or_fetch cat seed_oa_id (init_state mc recs) = (y, st1)"
    by (cases "oa_get_or_fetch cat seed_oa_id (init_state mc recs)")
  show ?thesis
  proof (cases y)
    case None
    then show ?thesis using r f by (simp add: crawl_references_via_s2_def)
  next
    case (Some seed_json)
    define st2 where "st2 = st1\<lparr>nodes := (nodes st1)(seed_oa_id \<mapsto>
        (from_openalex_json seed_json ''mixed'')\<lparr>s2_paper_id := Some (IdStr seed_s2_id)\<rparr>),
      seen := {seed_oa_id}, enqueued := [seed_oa_id]\<rparr>"
    have "distinct (enqueued st2) \<and> set (enqueued st2) \<subseteq> seen st2"
      by (simp add: st2_def)
    from crawl_loop_via_s2_distinct [OF this, of cat prm "[(seed_oa_id, IdStr seed_s2_id, 0)]"]
    show ?thesis
      using r f Some by (simp add: crawl_references_via_s2_def st2_def del: crawl_loop_via_s2.simps)
  qed
qed

text \<open>
  C8 fails on the code for the primary-only strategy. \<open>seen\<close> is extended only after
  the loop over a layer's references, so a record that lists the same reference twice
  gets that key into \<open>to_expand\<close> twice, and the key is appended to the frontier twice.
  The secondary-mediated strategy does keep the property (\<open>via_s2_enqueues_each_key_once\<close>).
\<close>

theorem duplicate_reference_enqueued_twice:
  "case crawl_references_openalex catalog_duplicate_ref params_depth2 ''W1'' empty_state of
     Inl e \<Rightarrow> False
   | Inr st \<Rightarrow>
       enqueued st = [''W1'', ''W2'', ''W2''] \<and> \<not> distinct (enqueued st) \<and>
       edges st = [(''W1'', ''W2''), (''W1'', ''W2'')]"
  by (simp add: crawl_eval_defs catalog_duplicate_ref_def params_depth2_def)

end
